theory Spec2Isabelle
  imports Main
begin

section \<open>The password task of tasks.py\<close>

text \<open>
  The development embeds the task \<^verbatim>\<open>generate_password\<close> of \<^verbatim>\<open>tasks.py\<close> and its
  local function \<^verbatim>\<open>_generate_password\<close>.

  The task uses four global names that \<^verbatim>\<open>tasks.py\<close> never binds: the modules \<^verbatim>\<open>string\<close>
  and \<^verbatim>\<open>secrets\<close> are not imported, \<^verbatim>\<open>PROJECT_ROOT\<close> and \<^verbatim>\<open>_logger\<close> are not defined
  (the imports are \<^verbatim>\<open>re\<close>, \<^verbatim>\<open>Path\<close>, \<^verbatim>\<open>mock\<close>, \<^verbatim>\<open>task\<close> and \<^verbatim>\<open>yaml\<close>, the constants
  \<^verbatim>\<open>TEMPLATE_ROOT\<close> and \<^verbatim>\<open>ESSENTIALS\<close>). Python looks a global name up when the
  statement that uses it runs, and raises NameError when it is not bound. The model
  therefore takes the bindings of the four names as a value, \<open>globals\<close>, and every use
  of a name is a lookup that can fail. The module as it is written is \<open>module_globals\<close>,
  with none of the four bound: there the task ends at its first statement.
\<close>

subsection \<open>The constants of module string\<close>

definition ascii_lowercase :: string where
  "ascii_lowercase = ''abcdefghijklmnopqrstuvwxyz''"

definition ascii_uppercase :: string where
  "ascii_uppercase = ''ABCDEFGHIJKLMNOPQRSTUVWXYZ''"

definition ascii_letters :: string where
  "ascii_letters = ascii_lowercase @ ascii_uppercase"

definition digits :: string where
  "digits = ''0123456789''"

text \<open>
  \<^verbatim>\<open>string.punctuation\<close>: the 32 printable ASCII characters that are neither letters,
  digits nor the space, in the order of their codes (0x21-0x2F, 0x3A-0x40, 0x5B-0x60,
  0x7B-0x7E).
\<close>

definition punctuation :: string where
  "punctuation =
    [CHR 0x21, CHR 0x22, CHR 0x23, CHR 0x24, CHR 0x25, CHR 0x26, CHR 0x27, CHR 0x28,
     CHR 0x29, CHR 0x2A, CHR 0x2B, CHR 0x2C, CHR 0x2D, CHR 0x2E, CHR 0x2F,
     CHR 0x3A, CHR 0x3B, CHR 0x3C, CHR 0x3D, CHR 0x3E, CHR 0x3F, CHR 0x40,
     CHR 0x5B, CHR 0x5C, CHR 0x5D, CHR 0x5E, CHR 0x5F, CHR 0x60,
     CHR 0x7B, CHR 0x7C, CHR 0x7D, CHR 0x7E]"

text \<open>
  The tests of \<^verbatim>\<open>str\<close> on one character. Every character they are applied to comes from
  the alphabet below, which is ASCII, and on ASCII they are the three ranges.
\<close>

definition islower :: "char \<Rightarrow> bool" where
  "islower c = (97 \<le> (of_char c :: nat) \<and> (of_char c :: nat) \<le> 122)"

definition isupper :: "char \<Rightarrow> bool" where
  "isupper c = (65 \<le> (of_char c :: nat) \<and> (of_char c :: nat) \<le> 90)"

definition isdigit :: "char \<Rightarrow> bool" where
  "isdigit c = (48 \<le> (of_char c :: nat) \<and> (of_char c :: nat) \<le> 57)"

subsection \<open>The random source\<close>

text \<open>
  The random source is a stream of draws \<open>rnd :: nat \<Rightarrow> nat\<close>: \<open>rnd i\<close> is the \<open>i\<close>-th
  random number the process obtains. \<^verbatim>\<open>secrets.choice(seq)\<close> is
  \<^verbatim>\<open>seq[randbelow(len(seq))]\<close>, and \<^verbatim>\<open>randbelow(n)\<close> delivers a number below \<open>n\<close>: the
  draw reduced modulo \<open>n\<close>. The function is applied to the alphabet only, which is not
  empty (on an empty sequence Python raises IndexError).
\<close>

definition choice :: "'a list \<Rightarrow> nat \<Rightarrow> 'a" where
  "choice seq r = seq ! (r mod length seq)"

subsection \<open>The local function _generate_password\<close>

definition alphabet :: string where
  "alphabet = ascii_letters @ digits @ punctuation"

text \<open>
  One candidate: \<^verbatim>\<open>"".join(secrets.choice(alphabet) for _ in range(length))\<close>, drawn
  from position \<open>pos\<close> of the stream on. \<^verbatim>\<open>range(length)\<close> is empty for a negative
  length.
\<close>

definition candidate :: "(nat \<Rightarrow> nat) \<Rightarrow> int \<Rightarrow> nat \<Rightarrow> string" where
  "candidate rnd len pos = map (\<lambda>i. choice alphabet (rnd (pos + i))) [0..<nat len]"

text \<open>The condition of the \<^verbatim>\<open>if\<close>: one character of each category.\<close>

definition accepted :: "string \<Rightarrow> bool" where
  "accepted password =
    (list_ex islower password
     \<and> list_ex isupper password
     \<and> list_ex isdigit password
     \<and> list_ex (\<lambda>c. c \<in> set punctuation) password)"

text \<open>
  The loop \<^verbatim>\<open>while True\<close>. It returns the accepted password and the position of the
  stream after it; \<open>None\<close> is the loop that never ends.
\<close>

partial_function (option) generate_loop ::
  "(nat \<Rightarrow> nat) \<Rightarrow> int \<Rightarrow> nat \<Rightarrow> (string \<times> nat) option" where
  "generate_loop rnd len pos =
    (let password = candidate rnd len pos in
     if accepted password then Some (password, pos + nat len)
     else generate_loop rnd len (pos + nat len))"

declare generate_loop.simps [code]

subsection \<open>The world of the task\<close>

text \<open>
  A path is the list of its components. The file system maps the paths that exist to a
  directory or to a file with its contents.
\<close>

type_synonym path = "string list"

datatype node = Dir | File string

text \<open>
  The exceptions. \<open>NameError n\<close> is the failed lookup of the name \<open>n\<close>; the others
  come from the file system calls, \<open>OSError msg\<close> standing for every other error of the
  operating system (permission denied, no space left on device).
\<close>

datatype error =
    NameError string
  | FileNotFoundError
  | FileExistsError
  | NotADirectoryError
  | IsADirectoryError
  | OSError string

text \<open>
  The bindings of the four names. A name is unbound, or bound to what its use in the
  task takes it to be: the two standard modules, a path, a logger.
\<close>

record globals =
  string_bound :: bool
  secrets_bound :: bool
  PROJECT_ROOT :: "path option"
  logger_bound :: bool

text \<open>The bindings \<^verbatim>\<open>tasks.py\<close> makes: none of the four.\<close>

definition module_globals :: globals where
  "module_globals =
    \<lparr>string_bound = False, secrets_bound = False, PROJECT_ROOT = None, logger_bound = False\<rparr>"

text \<open>
  The world: the file system, the records given to the logger, the number of draws
  taken from the random source and the number of file system calls made so far.
\<close>

record world =
  files :: "path \<rightharpoonup> node"
  records :: "string list"
  drawn :: nat
  calls :: nat

text \<open>
  A command does not return (the loop), raises, or returns a value; the world is the one
  at that moment.
\<close>

datatype 'a outcome = Diverges | Raises error world | Returns 'a world

text \<open>Sequencing of two statements: an exception or a loop ends the run.\<close>

definition and_then :: "'a outcome \<Rightarrow> ('a \<Rightarrow> world \<Rightarrow> 'b outcome) \<Rightarrow> 'b outcome" where
  "and_then m f =
    (case m of Diverges \<Rightarrow> Diverges | Raises e w \<Rightarrow> Raises e w | Returns a w \<Rightarrow> f a w)"

text \<open>
  A file system call fails for what the file system holds (a missing parent, a directory
  in the way) or for a reason outside it (permission denied, no space left). The second
  kind is an input: \<open>faults n = Some (e, k)\<close> makes the call number \<open>n\<close> fail with \<open>e\<close>,
  and the world counts the calls. When the failing call is a write, \<open>k\<close> characters of
  the text have reached the file before the failure.
\<close>

type_synonym faults = "nat \<Rightarrow> (error \<times> nat) option"

text \<open>\<^verbatim>\<open>os.mkdir(p)\<close>:\<close>

definition os_mkdir :: "faults \<Rightarrow> path \<Rightarrow> world \<Rightarrow> unit outcome" where
  "os_mkdir faults p w =
    (let w' = w\<lparr>calls := calls w + 1\<rparr> in
     case faults (calls w) of
       Some (e, k) \<Rightarrow> Raises e w'
     | None \<Rightarrow>
        (case files w (butlast p) of
           None \<Rightarrow> Raises FileNotFoundError w'
         | Some (File c) \<Rightarrow> Raises NotADirectoryError w'
         | Some Dir \<Rightarrow>
            (case files w p of
               Some n \<Rightarrow> Raises FileExistsError w'
             | None \<Rightarrow> Returns () (w'\<lparr>files := (files w)(p \<mapsto> Dir)\<rparr>))))"

text \<open>
  \<^verbatim>\<open>Path.mkdir(exist_ok=True)\<close>, with \<^verbatim>\<open>parents\<close> left at False: FileNotFoundError
  is raised again, any other error of \<^verbatim>\<open>os.mkdir\<close> is dropped when the path is a
  directory.
\<close>

definition Path_mkdir :: "faults \<Rightarrow> path \<Rightarrow> world \<Rightarrow> unit outcome" where
  "Path_mkdir faults p w =
    (case os_mkdir faults p w of
       Raises FileNotFoundError w' \<Rightarrow> Raises FileNotFoundError w'
     | Raises e w' \<Rightarrow> if files w' p = Some Dir then Returns () w' else Raises e w'
     | r \<Rightarrow> r)"

text \<open>
  \<^verbatim>\<open>open(p, "w")\<close> creates the file or empties it; the handle is the path.
\<close>

definition open_w :: "faults \<Rightarrow> path \<Rightarrow> world \<Rightarrow> path outcome" where
  "open_w faults p w =
    (let w' = w\<lparr>calls := calls w + 1\<rparr> in
     case faults (calls w) of
       Some (e, k) \<Rightarrow> Raises e w'
     | None \<Rightarrow>
        (case files w (butlast p) of
           None \<Rightarrow> Raises FileNotFoundError w'
         | Some (File c) \<Rightarrow> Raises NotADirectoryError w'
         | Some Dir \<Rightarrow>
            (case files w p of
               Some Dir \<Rightarrow> Raises IsADirectoryError w'
             | _ \<Rightarrow> Returns p (w'\<lparr>files := (files w)(p \<mapsto> File [])\<rparr>))))"

text \<open>
  \<^verbatim>\<open>f.write(s)\<close> and the end of the \<^verbatim>\<open>with\<close> block, which flushes and closes. The
  text reaches the file opened before; when the call fails, the part of the text written
  before the failure stays in the file. The handle always comes from \<^verbatim>\<open>open\<close>, so it
  names a file; the other case is there to make the function total and is never reached
  by the task.
\<close>

definition write_close :: "faults \<Rightarrow> path \<Rightarrow> string \<Rightarrow> world \<Rightarrow> unit outcome" where
  "write_close faults f s w =
    (let w' = w\<lparr>calls := calls w + 1\<rparr> in
     case files w f of
       Some (File c) \<Rightarrow>
        (case faults (calls w) of
           Some (e, k) \<Rightarrow> Raises e (w'\<lparr>files := (files w)(f \<mapsto> File (c @ take k s))\<rparr>)
         | None \<Rightarrow> Returns () (w'\<lparr>files := (files w)(f \<mapsto> File (c @ s))\<rparr>))
     | _ \<Rightarrow> Raises (OSError ''Bad file descriptor'') w')"

text \<open>\<^verbatim>\<open>_logger.info(msg)\<close>: the lookup of \<^verbatim>\<open>_logger\<close>, then the record.\<close>

definition logger_info :: "globals \<Rightarrow> string \<Rightarrow> world \<Rightarrow> unit outcome" where
  "logger_info g msg w =
    (if logger_bound g then Returns () (w\<lparr>records := records w @ [msg]\<rparr>)
     else Raises (NameError ''_logger'') w)"

text \<open>The decimal numeral of an integer, as an f-string formats it.\<close>

fun str_nat :: "nat \<Rightarrow> string" where
  "str_nat n = (if n < 10 then [digits ! n] else str_nat (n div 10) @ [digits ! (n mod 10)])"

declare str_nat.simps [simp del]

definition str_int :: "int \<Rightarrow> string" where
  "str_int i = (if i < 0 then CHR ''-'' # str_nat (nat (- i)) else str_nat (nat i))"

subsection \<open>The task generate_password\<close>

text \<open>
  The call of the local function. Its first statement reads \<^verbatim>\<open>string\<close>. The name
  \<^verbatim>\<open>secrets\<close> is read when the first character of the first candidate is drawn, which
  happens for a positive length only (\<^verbatim>\<open>range(length)\<close> is empty otherwise); no draw is
  taken before. With both names bound the loop runs on the draws not yet taken.
\<close>

definition local_generate_password ::
  "globals \<Rightarrow> (nat \<Rightarrow> nat) \<Rightarrow> int \<Rightarrow> world \<Rightarrow> string outcome" where
  "local_generate_password g rnd len w =
    (if \<not> string_bound g then Raises (NameError ''string'') w
     else if 0 < len \<and> \<not> secrets_bound g then Raises (NameError ''secrets'') w
     else
       (case generate_loop rnd len (drawn w) of
          None \<Rightarrow> Diverges
        | Some (password, d) \<Rightarrow> Returns password (w\<lparr>drawn := d\<rparr>)))"

text \<open>
  The task. Its first statement, \<^verbatim>\<open>output_dir = PROJECT_ROOT / ".docker"\<close>, reads
  \<^verbatim>\<open>PROJECT_ROOT\<close>; the definition of the local function before it reads no name.
\<close>

definition generate_password ::
  "globals \<Rightarrow> (nat \<Rightarrow> nat) \<Rightarrow> faults \<Rightarrow> int \<Rightarrow> world \<Rightarrow> unit outcome" where
  "generate_password g rnd faults len w =
    (case PROJECT_ROOT g of
       None \<Rightarrow> Raises (NameError ''PROJECT_ROOT'') w
     | Some root \<Rightarrow>
        (let output_dir = root @ [''.docker''] in
         and_then (Path_mkdir faults output_dir w) (\<lambda>_ w.
         and_then (local_generate_password g rnd len w) (\<lambda>admin_password w.
         and_then (local_generate_password g rnd len w) (\<lambda>postgres_password w.
         and_then (open_w faults (output_dir @ [''odoo.env'']) w) (\<lambda>f w.
         and_then (write_close faults f (''ADMIN_PASSWORD='' @ admin_password @ [CHR 0x0A]) w) (\<lambda>_ w.
         and_then (open_w faults (output_dir @ [''db-creation.env'']) w) (\<lambda>f w.
         and_then (write_close faults f (''POSTGRES_PASSWORD='' @ postgres_password @ [CHR 0x0A]) w) (\<lambda>_ w.
         and_then (open_w faults (output_dir @ [''db-access.env'']) w) (\<lambda>f w.
         and_then (write_close faults f (''PGPASSWORD='' @ postgres_password @ [CHR 0x0A]) w) (\<lambda>_ w.
         and_then (logger_info g ''Passwords and env files generated in .docker/'' w) (\<lambda>_ w.
         logger_info g (''Generated passwords with length: '' @ str_int len) w))))))))))))"

subsection \<open>Comparing outcomes\<close>

text \<open>A property of the world a run ends in, when it ends.\<close>

definition ends_in :: "(world \<Rightarrow> bool) \<Rightarrow> 'a outcome \<Rightarrow> bool" where
  "ends_in P r = (case r of Diverges \<Rightarrow> True | Raises e w \<Rightarrow> P w | Returns a w \<Rightarrow> P w)"



subsection \<open>Inputs for the examples\<close>

text \<open>
  Bindings under which the task runs through: the two modules imported, a logger, and
  the directory \<^verbatim>\<open>project\<close> for \<^verbatim>\<open>PROJECT_ROOT\<close>.
\<close>

definition bound_globals :: globals where
  "bound_globals =
    \<lparr>string_bound = True, secrets_bound = True, PROJECT_ROOT = Some [''project''],
     logger_bound = True\<rparr>"

text \<open>A stream: the draws of a list, repeated for ever.\<close>

definition cycle :: "nat list \<Rightarrow> nat \<Rightarrow> nat" where
  "cycle ds i = ds ! (i mod List.length ds)"

text \<open>Two streams: the first gives \<open>aA0!\<close> and then \<open>bB1#\<close>, the second \<open>cC2$\<close> and \<open>dD3%\<close>.\<close>

definition draws_one :: "nat \<Rightarrow> nat" where
  "draws_one = cycle [0, 26, 52, 62, 1, 27, 53, 64]"

definition draws_two :: "nat \<Rightarrow> nat" where
  "draws_two = cycle [2, 28, 54, 65, 3, 29, 55, 66]"

text \<open>A stream whose first candidate of four characters is rejected: \<open>aaaa\<close>, then \<open>aA0!\<close>.\<close>

definition draws_retry :: "nat \<Rightarrow> nat" where
  "draws_retry = cycle [0, 0, 0, 0, 0, 26, 52, 62]"

text \<open>No call fails; the call number \<open>n\<close> fails with \<open>e\<close> after \<open>k\<close> characters.\<close>

definition no_faults :: faults where
  "no_faults i = None"

definition fail_at :: "nat \<Rightarrow> error \<Rightarrow> nat \<Rightarrow> faults" where
  "fail_at n e k i = (if i = n then Some (e, k) else None)"

text \<open>A world with the root and the project directory, nothing logged, nothing drawn.\<close>

definition start_world :: world where
  "start_world = \<lparr>files = [[] \<mapsto> Dir, [''project''] \<mapsto> Dir], records = [], drawn = 0, calls = 0\<rparr>"

text \<open>
  A world where the directory is there, with an older \<^verbatim>\<open>odoo.env\<close> and a file of somebody
  else's.
\<close>

definition old_world :: world where
  "old_world = \<lparr>files = [[] \<mapsto> Dir, [''project''] \<mapsto> Dir,
      [''project'', ''.docker''] \<mapsto> Dir,
      [''project'', ''.docker'', ''notes.txt''] \<mapsto> File ''keep'',
      [''project'', ''.docker'', ''odoo.env''] \<mapsto> File (''ADMIN_PASSWORD=old'' @ [CHR 0x0A] @ ''EXTRA=1'')],
    records = [], drawn = 0, calls = 0\<rparr>"

text \<open>
  The worlds the task would leave with the example bindings: after a run on the first
  stream, on the second stream, on the first stream in the older world, and on the first
  stream when the sixth call, the \<^verbatim>\<open>open\<close> of \<^verbatim>\<open>db-access.env\<close>, fails.
\<close>

definition after_one :: world where
  "after_one = \<lparr>files = [[] \<mapsto> Dir, [''project''] \<mapsto> Dir,
      [''project'', ''.docker''] \<mapsto> Dir,
      [''project'', ''.docker'', ''odoo.env''] \<mapsto> File (''ADMIN_PASSWORD=aA0!'' @ [CHR 0x0A]),
      [''project'', ''.docker'', ''db-creation.env''] \<mapsto> File (''POSTGRES_PASSWORD=bB1#'' @ [CHR 0x0A]),
      [''project'', ''.docker'', ''db-access.env''] \<mapsto> File (''PGPASSWORD=bB1#'' @ [CHR 0x0A])],
    records = [''Passwords and env files generated in .docker/'',
      ''Generated passwords with length: 4''],
    drawn = 8, calls = 7\<rparr>"

definition after_two :: world where
  "after_two = \<lparr>files = [[] \<mapsto> Dir, [''project''] \<mapsto> Dir,
      [''project'', ''.docker''] \<mapsto> Dir,
      [''project'', ''.docker'', ''odoo.env''] \<mapsto> File (''ADMIN_PASSWORD=cC2$'' @ [CHR 0x0A]),
      [''project'', ''.docker'', ''db-creation.env''] \<mapsto> File (''POSTGRES_PASSWORD=dD3%'' @ [CHR 0x0A]),
      [''project'', ''.docker'', ''db-access.env''] \<mapsto> File (''PGPASSWORD=dD3%'' @ [CHR 0x0A])],
    records = [''Passwords and env files generated in .docker/'',
      ''Generated passwords with length: 4''],
    drawn = 8, calls = 7\<rparr>"

definition after_old :: world where
  "after_old = \<lparr>files = [[] \<mapsto> Dir, [''project''] \<mapsto> Dir,
      [''project'', ''.docker''] \<mapsto> Dir,
      [''project'', ''.docker'', ''notes.txt''] \<mapsto> File ''keep'',
      [''project'', ''.docker'', ''odoo.env''] \<mapsto> File (''ADMIN_PASSWORD=aA0!'' @ [CHR 0x0A]),
      [''project'', ''.docker'', ''db-creation.env''] \<mapsto> File (''POSTGRES_PASSWORD=bB1#'' @ [CHR 0x0A]),
      [''project'', ''.docker'', ''db-access.env''] \<mapsto> File (''PGPASSWORD=bB1#'' @ [CHR 0x0A])],
    records = [''Passwords and env files generated in .docker/'',
      ''Generated passwords with length: 4''],
    drawn = 8, calls = 7\<rparr>"

definition after_fault :: world where
  "after_fault = \<lparr>files = [[] \<mapsto> Dir, [''project''] \<mapsto> Dir,
      [''project'', ''.docker''] \<mapsto> Dir,
      [''project'', ''.docker'', ''odoo.env''] \<mapsto> File (''ADMIN_PASSWORD=aA0!'' @ [CHR 0x0A]),
      [''project'', ''.docker'', ''db-creation.env''] \<mapsto> File (''POSTGRES_PASSWORD=bB1#'' @ [CHR 0x0A])],
    records = [], drawn = 8, calls = 6\<rparr>"

section \<open>Properties\<close>

lemma length_alphabet: "List.length alphabet = 94"
  by (simp add: alphabet_def ascii_letters_def ascii_lowercase_def ascii_uppercase_def
      digits_def punctuation_def)

lemma choice_alphabet: "choice alphabet r \<in> set alphabet"
  by (simp add: choice_def length_alphabet)

lemma length_candidate: "List.length (candidate rnd len pos) = nat len"
  by (simp add: candidate_def)

lemma set_candidate: "set (candidate rnd len pos) \<subseteq> set alphabet"
  by (auto simp: candidate_def choice_alphabet)

lemma generate_loop_sound:
  assumes "generate_loop rnd len pos = Some y"
  shows "\<exists>k. fst y = candidate rnd len (pos + k * nat len) \<and> accepted (fst y)
    \<and> snd y = pos + (k + 1) * nat len
    \<and> (\<forall>j<k. \<not> accepted (candidate rnd len (pos + j * nat len)))"
proof (rule generate_loop.raw_induct [where P = "\<lambda>rnd len pos y.
    \<exists>k. fst y = candidate rnd len (pos + k * nat len) \<and> accepted (fst y)
    \<and> snd y = pos + (k + 1) * nat len
    \<and> (\<forall>j<k. \<not> accepted (candidate rnd len (pos + j * nat len)))", OF _ assms])
  fix f :: "(nat \<Rightarrow> nat) \<Rightarrow> int \<Rightarrow> nat \<Rightarrow> (string \<times> nat) option"
  fix rnd len pos y
  assume IH: "\<And>rnd len pos y. f rnd len pos = Some y \<Longrightarrow>
    \<exists>k. fst y = candidate rnd len (pos + k * nat len) \<and> accepted (fst y)
    \<and> snd y = pos + (k + 1) * nat len
    \<and> (\<forall>j<k. \<not> accepted (candidate rnd len (pos + j * nat len)))"
  assume body: "(let password = candidate rnd len pos in
     if accepted password then Some (password, pos + nat len)
     else f rnd len (pos + nat len)) = Some y"
  show "\<exists>k. fst y = candidate rnd len (pos + k * nat len) \<and> accepted (fst y)
    \<and> snd y = pos + (k + 1) * nat len
    \<and> (\<forall>j<k. \<not> accepted (candidate rnd len (pos + j * nat len)))"
  proof (cases "accepted (candidate rnd len pos)")
    case True
    with body have "y = (candidate rnd len pos, pos + nat len)"
      by (simp add: Let_def)
    with True show ?thesis
      by (intro exI [of _ 0]) simp
  next
    case False
    with body have "f rnd len (pos + nat len) = Some y"
      by (simp add: Let_def)
    from IH [OF this] obtain k where k:
      "fst y = candidate rnd len (pos + nat len + k * nat len)" "accepted (fst y)"
      "snd y = pos + nat len + (k + 1) * nat len"
      "\<forall>j<k. \<not> accepted (candidate rnd len (pos + nat len + j * nat len))"
      by blast
    have "\<forall>j<Suc k. \<not> accepted (candidate rnd len (pos + j * nat len))"
    proof (intro allI impI)
      fix j assume "j < Suc k"
      show "\<not> accepted (candidate rnd len (pos + j * nat len))"
      proof (cases j)
        case 0
        with False show ?thesis by simp
      next
        case (Suc i)
        with \<open>j < Suc k\<close> have "i < k" by simp
        with k(4) have "\<not> accepted (candidate rnd len (pos + nat len + i * nat len))"
          by blast
        with Suc show ?thesis by (simp add: add.assoc)
      qed
    qed
    with k(1-3) show ?thesis
      by (intro exI [of _ "Suc k"]) (simp add: add.assoc)
  qed
qed

lemma generate_loop_complete:
  assumes "accepted (candidate rnd len (pos + k * nat len))"
    and "\<forall>j<k. \<not> accepted (candidate rnd len (pos + j * nat len))"
  shows "generate_loop rnd len pos
    = Some (candidate rnd len (pos + k * nat len), pos + (k + 1) * nat len)"
  using assms
proof (induction k arbitrary: pos)
  case 0
  then show ?case
    by (subst generate_loop.simps) (simp add: Let_def)
next
  case (Suc k)
  from Suc.prems(2) have first: "\<not> accepted (candidate rnd len pos)"
    by (metis add.right_neutral mult_zero_left zero_less_Suc)
  have acc: "accepted (candidate rnd len (pos + nat len + k * nat len))"
    using Suc.prems(1) by (simp add: add.assoc)
  have rej: "\<forall>j<k. \<not> accepted (candidate rnd len (pos + nat len + j * nat len))"
  proof (intro allI impI)
    fix j assume "j < k"
    then have "\<not> accepted (candidate rnd len (pos + Suc j * nat len))"
      using Suc.prems(2) by (meson Suc_less_eq)
    then show "\<not> accepted (candidate rnd len (pos + nat len + j * nat len))"
      by (simp add: add.assoc)
  qed
  have "generate_loop rnd len pos = generate_loop rnd len (pos + nat len)"
    using first by (subst generate_loop.simps) (simp add: Let_def)
  also have "\<dots> = Some (candidate rnd len (pos + nat len + k * nat len),
      pos + nat len + (k + 1) * nat len)"
    by (rule Suc.IH [OF acc rej])
  finally show ?case
    by (simp add: add.assoc)
qed


lemma islower_alphabet: "c \<in> set alphabet \<Longrightarrow> islower c \<longleftrightarrow> c \<in> set ascii_lowercase"
  unfolding alphabet_def ascii_letters_def ascii_lowercase_def ascii_uppercase_def
      digits_def punctuation_def islower_def
  by (elim disjE | simp)+

lemma isupper_alphabet: "c \<in> set alphabet \<Longrightarrow> isupper c \<longleftrightarrow> c \<in> set ascii_uppercase"
  unfolding alphabet_def ascii_letters_def ascii_lowercase_def ascii_uppercase_def
      digits_def punctuation_def isupper_def
  by (elim disjE | simp)+

lemma isdigit_alphabet: "c \<in> set alphabet \<Longrightarrow> isdigit c \<longleftrightarrow> c \<in> set digits"
  unfolding alphabet_def ascii_letters_def ascii_lowercase_def ascii_uppercase_def
      digits_def punctuation_def isdigit_def
  by (elim disjE | simp)+

lemma punctuation_alphabet: "c \<in> set punctuation \<Longrightarrow> c \<in> set alphabet"
  by (simp add: alphabet_def)

lemma punctuation_not_alnum:
  "c \<in> set punctuation \<Longrightarrow> \<not> islower c \<and> \<not> isupper c \<and> \<not> isdigit c"
  unfolding punctuation_def islower_def isupper_def isdigit_def
  by (elim disjE | simp)+

lemma classes_disjoint:
  "islower c \<Longrightarrow> \<not> isupper c" "islower c \<Longrightarrow> \<not> isdigit c" "isupper c \<Longrightarrow> \<not> isdigit c"
  by (simp_all add: islower_def isupper_def isdigit_def)

lemma accepted_iff:
  "accepted p \<longleftrightarrow> (\<exists>a\<in>set p. islower a) \<and> (\<exists>b\<in>set p. isupper b) \<and> (\<exists>c\<in>set p. isdigit c)
    \<and> (\<exists>d\<in>set p. d \<in> set punctuation)"
  by (simp add: accepted_def list_ex_iff)

lemma accepted_length:
  assumes "accepted p"
  shows "4 \<le> List.length p"
proof -
  from assms obtain a b c d where in_p: "a \<in> set p" "b \<in> set p" "c \<in> set p" "d \<in> set p"
    and cls: "islower a" "isupper b" "isdigit c" "d \<in> set punctuation"
    unfolding accepted_iff by blast
  from cls have "distinct [a, b, c, d]"
    using classes_disjoint punctuation_not_alnum by auto
  then have "card (set [a, b, c, d]) = 4"
    by (simp only: distinct_card) simp
  moreover have "set [a, b, c, d] \<subseteq> set p"
    using in_p by simp
  then have "card (set [a, b, c, d]) \<le> card (set p)"
    by (intro card_mono) simp_all
  ultimately show ?thesis
    using card_length [of p] by linarith
qed

lemma generate_loop_short:
  assumes "len < 4"
  shows "generate_loop rnd len pos = None"
proof (cases "generate_loop rnd len pos")
  case None
  then show ?thesis .
next
  case (Some y)
  from generate_loop_sound [OF Some] obtain k where
    "fst y = candidate rnd len (pos + k * nat len)" "accepted (fst y)" by blast
  then have "4 \<le> nat len"
    using accepted_length [of "fst y"] by (simp add: length_candidate)
  with assms show ?thesis by simp
qed


subsection \<open>The loop reads only the draws it takes\<close>

lemma generate_loop_advances:
  assumes "generate_loop rnd len p = Some (a, d)"
  shows "p < d \<and> List.length a = nat len \<and> set a \<subseteq> set alphabet \<and> accepted a"
proof -
  from generate_loop_sound [OF assms] obtain k where
    k: "a = candidate rnd len (p + k * nat len)" "accepted a" "d = p + (k + 1) * nat len"
    by auto
  from k(1,2) have "4 \<le> nat len"
    using accepted_length [of a] by (simp add: length_candidate)
  then have "0 < len" by linarith
  with k show ?thesis
    by (simp add: length_candidate set_candidate)
qed



lemma first_accepted:
  assumes "accepted (candidate rnd len (p + k * nat len))"
  shows "\<exists>m. accepted (candidate rnd len (p + m * nat len))
    \<and> (\<forall>j<m. \<not> accepted (candidate rnd len (p + j * nat len)))"
proof -
  define m where "m = (LEAST i. accepted (candidate rnd len (p + i * nat len)))"
  have "accepted (candidate rnd len (p + m * nat len))"
    unfolding m_def using assms by (rule LeastI)
  moreover have "\<forall>j<m. \<not> accepted (candidate rnd len (p + j * nat len))"
    unfolding m_def using not_less_Least by blast
  ultimately show ?thesis by blast
qed

subsection \<open>The logged lines hold no password\<close>

lemma set_str_nat: "set (str_nat n) \<subseteq> set digits"
proof (induction n rule: str_nat.induct)
  case (1 n)
  have "List.length digits = 10" by (simp add: digits_def)
  then have d: "digits ! k \<in> set digits" if "k < 10" for k
    using that by (simp only: nth_mem)
  show ?case
  proof (cases "n < 10")
    case True
    then show ?thesis
      by (subst str_nat.simps) (simp add: d)
  next
    case False
    with 1 have "set (str_nat (n div 10)) \<subseteq> set digits" by simp
    moreover have "digits ! (n mod 10) \<in> set digits" by (rule d) simp
    ultimately show ?thesis
      using False by (subst str_nat.simps) simp
  qed
qed

lemma str_int_no_upper: "c \<in> set (str_int i) \<Longrightarrow> \<not> isupper c"
proof -
  assume "c \<in> set (str_int i)"
  then have "c = CHR ''-'' \<or> c \<in> set digits"
    using set_str_nat by (auto simp: str_int_def split: if_splits)
  then show "\<not> isupper c"
    by (auto simp: digits_def isupper_def)
qed

lemma space_not_alphabet: "CHR '' '' \<notin> set alphabet"
  by (simp add: alphabet_def ascii_letters_def ascii_lowercase_def ascii_uppercase_def
      digits_def punctuation_def)

lemma completion_line_no_password:
  assumes "accepted a"
  shows "''Passwords and env files generated in .docker/'' \<noteq> ps @ a @ ss"
proof
  assume eq: "''Passwords and env files generated in .docker/'' = ps @ a @ ss"
  from assms obtain c where "c \<in> set a" "isdigit c"
    unfolding accepted_iff by blast
  then have "c \<in> set (ps @ a @ ss)" by simp
  with eq [symmetric] have "c \<in> set ''Passwords and env files generated in .docker/''"
    by simp
  with \<open>isdigit c\<close> show False
    by (auto simp: isdigit_def)
qed

lemma length_line_no_password:
  assumes acc: "accepted a" and alph: "set a \<subseteq> set alphabet"
  shows "''Generated passwords with length: '' @ str_int len \<noteq> ps @ a @ ss"
proof
  let ?tail = "''enerated passwords with length: ''"
  assume eq: "''Generated passwords with length: '' @ str_int len = ps @ a @ ss"
  have tail_no_upper: "\<not> isupper c" if "c \<in> set (?tail @ str_int len)" for c
    using that str_int_no_upper [of c len] by (auto simp: isupper_def)
  from acc obtain u where "u \<in> set a" "isupper u"
    unfolding accepted_iff by blast
  then obtain a1 a2 where a: "a = a1 @ u # a2"
    by (meson split_list)
  from eq a have eq': "CHR ''G'' # (?tail @ str_int len) = (ps @ a1) @ u # (a2 @ ss)"
    by simp
  have front: "ps @ a1 = []"
  proof (cases "ps @ a1")
    case Nil
    then show ?thesis .
  next
    case (Cons x xs)
    with eq' have "?tail @ str_int len = xs @ u # (a2 @ ss)" by simp
    then have "u \<in> set (?tail @ str_int len)"
      by (metis in_set_conv_decomp)
    with tail_no_upper \<open>isupper u\<close> show ?thesis by blast
  qed
  with eq have prefix: "''Generated passwords with length: '' @ str_int len = a @ ss"
    by simp
  from acc obtain d where d: "d \<in> set a" "isdigit d"
    unfolding accepted_iff by blast
  from prefix obtain us where
    "''Generated passwords with length: '' = a @ us
     \<or> ''Generated passwords with length: '' @ us = a"
    by (auto simp only: append_eq_append_conv2)
  then show False
  proof
    assume "''Generated passwords with length: '' = a @ us"
    then have "set a \<subseteq> set ''Generated passwords with length: ''"
      by (metis set_append Un_upper1)
    with d show False
      by (auto simp: isdigit_def)
  next
    assume "''Generated passwords with length: '' @ us = a"
    then have "set ''Generated passwords with length: '' \<subseteq> set a"
      by (metis set_append Un_upper1)
    then have "CHR '' '' \<in> set a" by auto
    with alph space_not_alphabet show False by blast
  qed
qed

subsection \<open>Evaluated draws\<close>

lemma newline_not_alphabet: "CHR 0x0A \<notin> set alphabet"
  by (simp add: alphabet_def ascii_letters_def ascii_lowercase_def ascii_uppercase_def
      digits_def punctuation_def)

lemma generate_loop_demo: "generate_loop (cycle [0, 26, 52, 62]) 4 0 = Some (''aA0!'', 4)"
proof -
  have c: "candidate (cycle [0, 26, 52, 62]) 4 0 = ''aA0!''" by code_simp
  have a: "accepted ''aA0!''" by code_simp
  show ?thesis
    using generate_loop_complete [of "cycle [0, 26, 52, 62]" 4 0 0] by (simp add: c a)
qed

lemma generate_loop_one_0: "generate_loop draws_one 4 0 = Some (''aA0!'', 4)"
proof -
  have c: "candidate draws_one 4 0 = ''aA0!''" by code_simp
  have a: "accepted ''aA0!''" by code_simp
  show ?thesis
    using generate_loop_complete [of draws_one 4 0 0] by (simp add: c a)
qed

lemma generate_loop_one_4: "generate_loop draws_one 4 4 = Some (''bB1#'', 8)"
proof -
  have c: "candidate draws_one 4 4 = ''bB1#''" by code_simp
  have a: "accepted ''bB1#''" by code_simp
  show ?thesis
    using generate_loop_complete [of draws_one 4 4 0] by (simp add: c a)
qed

lemma generate_loop_two_0: "generate_loop draws_two 4 0 = Some (''cC2$'', 4)"
proof -
  have c: "candidate draws_two 4 0 = ''cC2$''" by code_simp
  have a: "accepted ''cC2$''" by code_simp
  show ?thesis
    using generate_loop_complete [of draws_two 4 0 0] by (simp add: c a)
qed

lemma generate_loop_two_4: "generate_loop draws_two 4 4 = Some (''dD3%'', 8)"
proof -
  have c: "candidate draws_two 4 4 = ''dD3%''" by code_simp
  have a: "accepted ''dD3%''" by code_simp
  show ?thesis
    using generate_loop_complete [of draws_two 4 4 0] by (simp add: c a)
qed

lemma str_int_4: "str_int 4 = ''4''"
  by (simp add: str_int_def str_nat.simps digits_def)

subsection \<open>Unbound names\<close>

lemma local_generate_password_unbound:
  assumes "\<not> string_bound g"
  shows "local_generate_password g rnd len w = Raises (NameError ''string'') w"
  using assms by (simp add: local_generate_password_def)

lemma generate_password_unbound:
  assumes "PROJECT_ROOT g = None"
  shows "generate_password g rnd faults len w = Raises (NameError ''PROJECT_ROOT'') w"
  using assms by (simp add: generate_password_def)

lemma module_globals_simps:
  "string_bound module_globals = False" "secrets_bound module_globals = False"
  "PROJECT_ROOT module_globals = None" "logger_bound module_globals = False"
  by (simp_all add: module_globals_def)

lemma local_generate_password_outcomes:
  "local_generate_password g rnd len w = Raises (NameError ''string'') w
   \<or> local_generate_password g rnd len w = Raises (NameError ''secrets'') w
   \<or> local_generate_password g rnd len w = Diverges
   \<or> (\<exists>p d. generate_loop rnd len (drawn w) = Some (p, d)
         \<and> local_generate_password g rnd len w = Returns p (w\<lparr>drawn := d\<rparr>))"
  by (auto simp: local_generate_password_def split: option.splits)

lemma local_generate_password_Returns:
  "local_generate_password g rnd len w = Returns p w' \<longleftrightarrow>
    string_bound g \<and> secrets_bound g
    \<and> (\<exists>d. generate_loop rnd len (drawn w) = Some (p, d) \<and> w' = w\<lparr>drawn := d\<rparr>)"
proof
  assume r: "local_generate_password g rnd len w = Returns p w'"
  then have b: "string_bound g" and s: "0 < len \<longrightarrow> secrets_bound g"
    by (auto simp: local_generate_password_def split: if_splits)
  from r b s obtain d where d: "generate_loop rnd len (drawn w) = Some (p, d)" "w' = w\<lparr>drawn := d\<rparr>"
    by (auto simp: local_generate_password_def split: if_splits option.splits)
  have "\<not> len < 4"
    using generate_loop_short [of len rnd "drawn w"] d(1) by auto
  with s have "secrets_bound g" by simp
  with b d show "string_bound g \<and> secrets_bound g
    \<and> (\<exists>d. generate_loop rnd len (drawn w) = Some (p, d) \<and> w' = w\<lparr>drawn := d\<rparr>)"
    by blast
next
  assume "string_bound g \<and> secrets_bound g
    \<and> (\<exists>d. generate_loop rnd len (drawn w) = Some (p, d) \<and> w' = w\<lparr>drawn := d\<rparr>)"
  then show "local_generate_password g rnd len w = Returns p w'"
    by (auto simp: local_generate_password_def)
qed

lemma local_generate_password_short:
  assumes "len < 4"
  shows "local_generate_password g rnd len w
    = (if \<not> string_bound g then Raises (NameError ''string'') w
       else if 0 < len \<and> \<not> secrets_bound g then Raises (NameError ''secrets'') w
       else Diverges)"
  using assms by (simp add: local_generate_password_def generate_loop_short)

subsection \<open>The steps of the task, one by one\<close>

lemma and_then_simps:
  "and_then (Returns a w) f = f a w"
  "and_then (Raises e w) f = Raises e w"
  "and_then Diverges f = Diverges"
  by (simp_all add: and_then_def)

lemma and_then_Returns:
  "and_then m f = Returns v w' \<longleftrightarrow> (\<exists>a w1. m = Returns a w1 \<and> f a w1 = Returns v w')"
  by (cases m) (simp_all add: and_then_def)




subsection \<open>Directories: only the output directory is ever added\<close>








subsection \<open>Runs that meet the same draws\<close>








subsection \<open>Log records\<close>







section \<open>The task once the four names are bound\<close>

text \<open>
  What follows holds for bindings under which the task can return. With the bindings of
  \<^verbatim>\<open>tasks.py\<close> itself no run gets that far.
\<close>

lemma Path_mkdir_Returns:
  assumes "Path_mkdir faults p w = Returns u w'"
  shows "w' = w\<lparr>calls := calls w + 1, files := (files w)(p \<mapsto> Dir)\<rparr>
    \<and> (files w p = None \<or> files w p = Some Dir)"
  using assms
  by (auto simp: Path_mkdir_def os_mkdir_def Let_def fun_upd_idem
      split: option.splits node.splits error.splits if_splits prod.splits)

lemma open_w_Returns:
  "open_w faults p w = Returns f w' \<longleftrightarrow>
    faults (calls w) = None \<and> files w (butlast p) = Some Dir \<and> files w p \<noteq> Some Dir
    \<and> f = p \<and> w' = w\<lparr>calls := calls w + 1, files := (files w)(p \<mapsto> File [])\<rparr>"
  by (auto simp: open_w_def Let_def split: option.splits node.splits prod.splits)

lemma write_close_Returns:
  "write_close faults f s w = Returns u w' \<longleftrightarrow>
    faults (calls w) = None
    \<and> (\<exists>c. files w f = Some (File c)
          \<and> w' = w\<lparr>calls := calls w + 1, files := (files w)(f \<mapsto> File (c @ s))\<rparr>)"
  by (auto simp: write_close_def Let_def split: option.splits node.splits prod.splits)

lemma generate_password_Returns:
  assumes "generate_password g rnd faults len w = Returns u w'"
    and "PROJECT_ROOT g = Some root"
  shows "\<exists>a d1 b d2.
    generate_loop rnd len (drawn w) = Some (a, d1) \<and> generate_loop rnd len d1 = Some (b, d2)
    \<and> (files w (root @ [''.docker'']) = None \<or> files w (root @ [''.docker'']) = Some Dir)
    \<and> w' = \<lparr>files = (files w)
          (root @ [''.docker''] \<mapsto> Dir,
           root @ [''.docker'', ''odoo.env''] \<mapsto> File (''ADMIN_PASSWORD='' @ a @ [CHR 0x0A]),
           root @ [''.docker'', ''db-creation.env''] \<mapsto> File (''POSTGRES_PASSWORD='' @ b @ [CHR 0x0A]),
           root @ [''.docker'', ''db-access.env''] \<mapsto> File (''PGPASSWORD='' @ b @ [CHR 0x0A])),
        records = records w @ [''Passwords and env files generated in .docker/'',
          ''Generated passwords with length: '' @ str_int len],
        drawn = d2, calls = calls w + 7\<rparr>"
  using assms
  unfolding generate_password_def Let_def
  apply (simp only: option.case and_then_Returns)
  apply (clarsimp simp: open_w_Returns write_close_Returns local_generate_password_Returns
      logger_info_def dest!: Path_mkdir_Returns split: if_splits)
  done

lemma bound_globals_simps:
  "string_bound bound_globals" "secrets_bound bound_globals"
  "PROJECT_ROOT bound_globals = Some [''project'']" "logger_bound bound_globals"
  by (simp_all add: bound_globals_def)

lemmas run_defs = generate_password_def and_then_def Path_mkdir_def os_mkdir_def open_w_def
  write_close_def logger_info_def local_generate_password_def Let_def str_int_4
  bound_globals_simps

lemma run_one:
  "generate_password bound_globals draws_one no_faults 4 start_world = Returns () after_one"
  by (simp add: run_defs start_world_def after_one_def no_faults_def
      generate_loop_one_0 generate_loop_one_4)

lemma run_two:
  "generate_password bound_globals draws_two no_faults 4 start_world = Returns () after_two"
  by (simp add: run_defs start_world_def after_two_def no_faults_def
      generate_loop_two_0 generate_loop_two_4)

lemma run_old:
  "generate_password bound_globals draws_one no_faults 4 old_world = Returns () after_old"
  by (simp add: run_defs old_world_def after_old_def no_faults_def
      generate_loop_one_0 generate_loop_one_4)

lemma run_fault:
  "generate_password bound_globals draws_one (fail_at 5 (OSError ''Permission denied'') 0) 4
      start_world
    = Raises (OSError ''Permission denied'') after_fault"
  by (simp add: run_defs start_world_def after_fault_def fail_at_def
      generate_loop_one_0 generate_loop_one_4)

subsection \<open>What a run that returns leaves behind\<close>

text \<open>
  The password a call returns; the three files and their contents; the candidates the
  loop goes through; what is left of older files; what is logged.
\<close>

lemma returned_password_valid:
  assumes "4 \<le> len" and "local_generate_password g rnd len w = Returns password w'"
  shows "int (List.length password) = len
    \<and> set password \<subseteq> set ascii_lowercase \<union> set ascii_uppercase \<union> set digits \<union> set punctuation
    \<and> (\<exists>c \<in> set password. c \<in> set ascii_lowercase)
    \<and> (\<exists>c \<in> set password. c \<in> set ascii_uppercase)
    \<and> (\<exists>c \<in> set password. c \<in> set digits)
    \<and> (\<exists>c \<in> set password. c \<in> set punctuation)"
proof -
  from assms(2) obtain d where "generate_loop rnd len (drawn w) = Some (password, d)"
    by (auto simp: local_generate_password_Returns)
  from generate_loop_sound [OF this] obtain k where
    cand: "password = candidate rnd len (drawn w + k * nat len)" and acc: "accepted password"
    by auto
  from cand have len: "int (List.length password) = len"
    using assms(1) by (simp add: length_candidate)
  from cand have sub: "set password \<subseteq> set alphabet"
    by (simp add: set_candidate)
  then have sub': "set password
      \<subseteq> set ascii_lowercase \<union> set ascii_uppercase \<union> set digits \<union> set punctuation"
    by (auto simp: alphabet_def ascii_letters_def)
  from acc sub have "\<exists>c \<in> set password. c \<in> set ascii_lowercase"
    "\<exists>c \<in> set password. c \<in> set ascii_uppercase" "\<exists>c \<in> set password. c \<in> set digits"
    "\<exists>c \<in> set password. c \<in> set punctuation"
    unfolding accepted_iff
    using islower_alphabet isupper_alphabet isdigit_alphabet by blast+
  with len sub' show ?thesis by blast
qed

lemma database_password_reused:
  assumes "generate_password g rnd faults len w = Returns u w'"
    and root: "PROJECT_ROOT g = Some root"
  shows "\<exists>admin d1 db d2.
    generate_loop rnd len (drawn w) = Some (admin, d1)
    \<and> generate_loop rnd len d1 = Some (db, d2)
    \<and> drawn w < d1
    \<and> files w' (root @ [''.docker'', ''odoo.env''])
        = Some (File (''ADMIN_PASSWORD='' @ admin @ [CHR 0x0A]))
    \<and> files w' (root @ [''.docker'', ''db-creation.env''])
        = Some (File (''POSTGRES_PASSWORD='' @ db @ [CHR 0x0A]))
    \<and> files w' (root @ [''.docker'', ''db-access.env''])
        = Some (File (''PGPASSWORD='' @ db @ [CHR 0x0A]))"
proof -
  from generate_password_Returns [OF assms(1) root] obtain a d1 b d2 where
    g1: "generate_loop rnd len (drawn w) = Some (a, d1)"
    and g2: "generate_loop rnd len d1 = Some (b, d2)"
    and w': "w' = \<lparr>files = (files w)
          (root @ [''.docker''] \<mapsto> Dir,
           root @ [''.docker'', ''odoo.env''] \<mapsto> File (''ADMIN_PASSWORD='' @ a @ [CHR 0x0A]),
           root @ [''.docker'', ''db-creation.env''] \<mapsto> File (''POSTGRES_PASSWORD='' @ b @ [CHR 0x0A]),
           root @ [''.docker'', ''db-access.env''] \<mapsto> File (''PGPASSWORD='' @ b @ [CHR 0x0A])),
        records = records w @ [''Passwords and env files generated in .docker/'',
          ''Generated passwords with length: '' @ str_int len],
        drawn = d2, calls = calls w + 7\<rparr>"
    by blast
  from g1 have "drawn w < d1"
    by (simp add: generate_loop_advances)
  with g1 g2 w' show ?thesis
    by (intro exI [of _ a] exI [of _ d1] exI [of _ b] exI [of _ d2]) simp
qed

lemma three_files_one_line_each:
  assumes "generate_password g rnd faults len w = Returns u w'"
    and root: "PROJECT_ROOT g = Some root"
  shows "\<exists>admin db.
    List.length admin = nat len \<and> List.length db = nat len
    \<and> CHR 0x0A \<notin> set admin \<and> CHR 0x0A \<notin> set db
    \<and> files w' (root @ [''.docker'', ''odoo.env''])
        = Some (File (''ADMIN_PASSWORD'' @ ''='' @ admin @ [CHR 0x0A]))
    \<and> files w' (root @ [''.docker'', ''db-creation.env''])
        = Some (File (''POSTGRES_PASSWORD'' @ ''='' @ db @ [CHR 0x0A]))
    \<and> files w' (root @ [''.docker'', ''db-access.env''])
        = Some (File (''PGPASSWORD'' @ ''='' @ db @ [CHR 0x0A]))
    \<and> files w' (root @ [''.docker'']) = Some Dir
    \<and> (\<forall>p. files w' p \<noteq> files w p \<longrightarrow>
          p \<in> {root @ [''.docker''], root @ [''.docker'', ''odoo.env''],
               root @ [''.docker'', ''db-creation.env''], root @ [''.docker'', ''db-access.env'']})
    \<and> calls w' = calls w + 7"
proof -
  from generate_password_Returns [OF assms(1) root] obtain a d1 b d2 where
    g1: "generate_loop rnd len (drawn w) = Some (a, d1)"
    and g2: "generate_loop rnd len d1 = Some (b, d2)"
    and w': "w' = \<lparr>files = (files w)
          (root @ [''.docker''] \<mapsto> Dir,
           root @ [''.docker'', ''odoo.env''] \<mapsto> File (''ADMIN_PASSWORD='' @ a @ [CHR 0x0A]),
           root @ [''.docker'', ''db-creation.env''] \<mapsto> File (''POSTGRES_PASSWORD='' @ b @ [CHR 0x0A]),
           root @ [''.docker'', ''db-access.env''] \<mapsto> File (''PGPASSWORD='' @ b @ [CHR 0x0A])),
        records = records w @ [''Passwords and env files generated in .docker/'',
          ''Generated passwords with length: '' @ str_int len],
        drawn = d2, calls = calls w + 7\<rparr>"
    by blast
  from generate_loop_advances [OF g1] have a: "List.length a = nat len" "CHR 0x0A \<notin> set a"
    using newline_not_alphabet by auto
  from generate_loop_advances [OF g2] have b: "List.length b = nat len" "CHR 0x0A \<notin> set b"
    using newline_not_alphabet by auto
  from a b w' show ?thesis
    by (intro exI [of _ a] exI [of _ b]) simp
qed

lemma whole_candidate_rejection_sampling:
  assumes bound: "string_bound g" "secrets_bound g"
  shows "(local_generate_password g rnd len w = Returns password w' \<longleftrightarrow>
      (\<exists>k. (\<forall>j<k. \<not> accepted (candidate rnd len (drawn w + j * nat len)))
         \<and> accepted (candidate rnd len (drawn w + k * nat len))
         \<and> password = candidate rnd len (drawn w + k * nat len)
         \<and> w' = w\<lparr>drawn := drawn w + (k + 1) * nat len\<rparr>))
   \<and> (local_generate_password g rnd len w = Diverges \<longleftrightarrow>
      (\<forall>k. \<not> accepted (candidate rnd len (drawn w + k * nat len))))
   \<and> List.length (candidate rnd len s) = nat len
   \<and> (\<forall>i<nat len. candidate rnd len s ! i = alphabet ! (rnd (s + i) mod List.length alphabet))"
proof (intro conjI)
  show "local_generate_password g rnd len w = Returns password w' \<longleftrightarrow>
      (\<exists>k. (\<forall>j<k. \<not> accepted (candidate rnd len (drawn w + j * nat len)))
         \<and> accepted (candidate rnd len (drawn w + k * nat len))
         \<and> password = candidate rnd len (drawn w + k * nat len)
         \<and> w' = w\<lparr>drawn := drawn w + (k + 1) * nat len\<rparr>)"
  proof
    assume "local_generate_password g rnd len w = Returns password w'"
    then obtain d where run: "generate_loop rnd len (drawn w) = Some (password, d)"
      and w': "w' = w\<lparr>drawn := d\<rparr>"
      by (auto simp: local_generate_password_Returns)
    from generate_loop_sound [OF run] w' show "\<exists>k.
        (\<forall>j<k. \<not> accepted (candidate rnd len (drawn w + j * nat len)))
        \<and> accepted (candidate rnd len (drawn w + k * nat len))
        \<and> password = candidate rnd len (drawn w + k * nat len)
        \<and> w' = w\<lparr>drawn := drawn w + (k + 1) * nat len\<rparr>"
      by auto
  next
    assume "\<exists>k. (\<forall>j<k. \<not> accepted (candidate rnd len (drawn w + j * nat len)))
        \<and> accepted (candidate rnd len (drawn w + k * nat len))
        \<and> password = candidate rnd len (drawn w + k * nat len)
        \<and> w' = w\<lparr>drawn := drawn w + (k + 1) * nat len\<rparr>"
    then obtain k where k: "\<forall>j<k. \<not> accepted (candidate rnd len (drawn w + j * nat len))"
      "accepted (candidate rnd len (drawn w + k * nat len))"
      "password = candidate rnd len (drawn w + k * nat len)"
      "w' = w\<lparr>drawn := drawn w + (k + 1) * nat len\<rparr>"
      by blast
    from generate_loop_complete [OF k(2) k(1)] k(3,4)
    show "local_generate_password g rnd len w = Returns password w'"
      by (simp add: local_generate_password_def bound)
  qed
next
  show "local_generate_password g rnd len w = Diverges \<longleftrightarrow>
      (\<forall>k. \<not> accepted (candidate rnd len (drawn w + k * nat len)))"
  proof
    assume "local_generate_password g rnd len w = Diverges"
    then have none: "generate_loop rnd len (drawn w) = None"
      by (auto simp: local_generate_password_def bound split: option.splits)
    show "\<forall>k. \<not> accepted (candidate rnd len (drawn w + k * nat len))"
    proof (intro allI notI)
      fix k assume "accepted (candidate rnd len (drawn w + k * nat len))"
      from first_accepted [OF this] obtain m where
        "accepted (candidate rnd len (drawn w + m * nat len))"
        "\<forall>j<m. \<not> accepted (candidate rnd len (drawn w + j * nat len))"
        by blast
      from generate_loop_complete [OF this] none show False by simp
    qed
  next
    assume never: "\<forall>k. \<not> accepted (candidate rnd len (drawn w + k * nat len))"
    show "local_generate_password g rnd len w = Diverges"
    proof (cases "generate_loop rnd len (drawn w)")
      case None
      then show ?thesis by (auto simp: local_generate_password_def bound split: option.splits)
    next
      case (Some y)
      from generate_loop_sound [OF Some] never show ?thesis by auto
    qed
  qed
next
  show "List.length (candidate rnd len s) = nat len"
    by (rule length_candidate)
next
  show "\<forall>i<nat len. candidate rnd len s ! i = alphabet ! (rnd (s + i) mod List.length alphabet)"
    by (simp add: candidate_def choice_def)
qed

lemma existing_files_replaced:
  assumes "generate_password g rnd faults len w = Returns u w'"
    and root: "PROJECT_ROOT g = Some root"
    and run2: "generate_password g rnd faults2 len v = Returns u2 v'"
    and start: "drawn v = drawn w"
  shows "files v' (root @ [''.docker'', ''odoo.env'']) = files w' (root @ [''.docker'', ''odoo.env''])
    \<and> files v' (root @ [''.docker'', ''db-creation.env''])
        = files w' (root @ [''.docker'', ''db-creation.env''])
    \<and> files v' (root @ [''.docker'', ''db-access.env''])
        = files w' (root @ [''.docker'', ''db-access.env''])
    \<and> (\<forall>p. p \<notin> {root @ [''.docker'', ''odoo.env''], root @ [''.docker'', ''db-creation.env''],
               root @ [''.docker'', ''db-access.env'']} \<longrightarrow>
          files v' p = files v p
          \<or> p = root @ [''.docker''] \<and> files v p = None \<and> files v' p = Some Dir)"
proof -
  from generate_password_Returns [OF assms(1) root] obtain a d1 b d2 where
    g1: "generate_loop rnd len (drawn w) = Some (a, d1)"
    and g2: "generate_loop rnd len d1 = Some (b, d2)"
    and w': "w' = \<lparr>files = (files w)
          (root @ [''.docker''] \<mapsto> Dir,
           root @ [''.docker'', ''odoo.env''] \<mapsto> File (''ADMIN_PASSWORD='' @ a @ [CHR 0x0A]),
           root @ [''.docker'', ''db-creation.env''] \<mapsto> File (''POSTGRES_PASSWORD='' @ b @ [CHR 0x0A]),
           root @ [''.docker'', ''db-access.env''] \<mapsto> File (''PGPASSWORD='' @ b @ [CHR 0x0A])),
        records = records w @ [''Passwords and env files generated in .docker/'',
          ''Generated passwords with length: '' @ str_int len],
        drawn = d2, calls = calls w + 7\<rparr>"
    by blast
  from generate_password_Returns [OF run2 root] obtain a' d1' b' d2' where
    h1: "generate_loop rnd len (drawn v) = Some (a', d1')"
    and h2: "generate_loop rnd len d1' = Some (b', d2')"
    and dir: "files v (root @ [''.docker'']) = None \<or> files v (root @ [''.docker'']) = Some Dir"
    and v': "v' = \<lparr>files = (files v)
          (root @ [''.docker''] \<mapsto> Dir,
           root @ [''.docker'', ''odoo.env''] \<mapsto> File (''ADMIN_PASSWORD='' @ a' @ [CHR 0x0A]),
           root @ [''.docker'', ''db-creation.env''] \<mapsto> File (''POSTGRES_PASSWORD='' @ b' @ [CHR 0x0A]),
           root @ [''.docker'', ''db-access.env''] \<mapsto> File (''PGPASSWORD='' @ b' @ [CHR 0x0A])),
        records = records v @ [''Passwords and env files generated in .docker/'',
          ''Generated passwords with length: '' @ str_int len],
        drawn = d2', calls = calls v + 7\<rparr>"
    by blast
  from g1 h1 start have same1: "a' = a" "d1' = d1" by simp_all
  with g2 h2 have same2: "b' = b" by simp
  show ?thesis
    using dir by (auto simp: w' v' same1 same2)
qed

lemma log_independent_of_passwords:
  assumes "generate_password g rnd faults len w = Returns u w'"
    and root: "PROJECT_ROOT g = Some root"
    and run2: "generate_password g2 rnd2 faults2 len v = Returns u2 v'"
    and root2: "PROJECT_ROOT g2 = Some root2"
    and logs: "records v = records w"
  shows "records v' = records w'
    \<and> records w' = records w @ [''Passwords and env files generated in .docker/'',
          ''Generated passwords with length: '' @ str_int len]
    \<and> (\<forall>pw line ps ss.
          (files w' (root @ [''.docker'', ''odoo.env''])
             = Some (File (''ADMIN_PASSWORD='' @ pw @ [CHR 0x0A]))
           \<or> files w' (root @ [''.docker'', ''db-creation.env''])
             = Some (File (''POSTGRES_PASSWORD='' @ pw @ [CHR 0x0A])))
          \<and> (line = ''Passwords and env files generated in .docker/''
             \<or> line = ''Generated passwords with length: '' @ str_int len)
          \<longrightarrow> line \<noteq> ps @ pw @ ss)"
proof -
  from generate_password_Returns [OF assms(1) root] obtain a d1 b d2 where
    g1: "generate_loop rnd len (drawn w) = Some (a, d1)"
    and g2: "generate_loop rnd len d1 = Some (b, d2)"
    and w': "w' = \<lparr>files = (files w)
          (root @ [''.docker''] \<mapsto> Dir,
           root @ [''.docker'', ''odoo.env''] \<mapsto> File (''ADMIN_PASSWORD='' @ a @ [CHR 0x0A]),
           root @ [''.docker'', ''db-creation.env''] \<mapsto> File (''POSTGRES_PASSWORD='' @ b @ [CHR 0x0A]),
           root @ [''.docker'', ''db-access.env''] \<mapsto> File (''PGPASSWORD='' @ b @ [CHR 0x0A])),
        records = records w @ [''Passwords and env files generated in .docker/'',
          ''Generated passwords with length: '' @ str_int len],
        drawn = d2, calls = calls w + 7\<rparr>"
    by blast
  have logs: "records v' = records w'
    \<and> records w' = records w @ [''Passwords and env files generated in .docker/'',
          ''Generated passwords with length: '' @ str_int len]"
    using generate_password_Returns [OF run2 root2] logs w' by auto
  from generate_loop_advances [OF g1] have a: "accepted a" "set a \<subseteq> set alphabet"
    by simp_all
  from generate_loop_advances [OF g2] have b: "accepted b" "set b \<subseteq> set alphabet"
    by simp_all
  have absent: "line \<noteq> ps @ pw @ ss"
    if pw: "files w' (root @ [''.docker'', ''odoo.env''])
             = Some (File (''ADMIN_PASSWORD='' @ pw @ [CHR 0x0A]))
           \<or> files w' (root @ [''.docker'', ''db-creation.env''])
             = Some (File (''POSTGRES_PASSWORD='' @ pw @ [CHR 0x0A]))"
      and line: "line = ''Passwords and env files generated in .docker/''
             \<or> line = ''Generated passwords with length: '' @ str_int len"
    for pw line ps ss
  proof -
    from pw have "pw = a \<or> pw = b"
      by (auto simp: w')
    with a b have acc: "accepted pw" and alph: "set pw \<subseteq> set alphabet"
      by auto
    from line show ?thesis
    proof
      assume "line = ''Passwords and env files generated in .docker/''"
      with completion_line_no_password [OF acc, of ps ss] show ?thesis by simp
    next
      assume "line = ''Generated passwords with length: '' @ str_int len"
      with length_line_no_password [OF acc alph, of len ps ss] show ?thesis by simp
    qed
  qed
  from logs absent show ?thesis by blast
qed

subsection \<open>A file system call that fails\<close>

text \<open>
  The directory step, and a run in which one of the seven file system calls is refused
  by the environment.
\<close>

lemma Path_mkdir_created:
  assumes "files w (butlast p) = Some Dir" and "files w p = None" and "faults (calls w) = None"
  shows "Path_mkdir faults p w = Returns () (w\<lparr>calls := calls w + 1, files := (files w)(p \<mapsto> Dir)\<rparr>)"
  using assms by (simp add: Path_mkdir_def os_mkdir_def)

lemma Path_mkdir_exists:
  assumes "files w (butlast p) = Some Dir" and "files w p = Some Dir"
    and "\<forall>k. faults (calls w) \<noteq> Some (FileNotFoundError, k)"
  shows "Path_mkdir faults p w = Returns () (w\<lparr>calls := calls w + 1\<rparr>)"
proof (cases "faults (calls w)")
  case None
  with assms show ?thesis
    by (simp add: Path_mkdir_def os_mkdir_def)
next
  case (Some ek)
  obtain e k where "ek = (e, k)" by (cases ek)
  with Some assms show ?thesis
    by (cases e) (simp_all add: Path_mkdir_def os_mkdir_def)
qed

lemma Path_mkdir_no_parent:
  assumes "files w (butlast p) = None" and "faults (calls w) = None"
  shows "Path_mkdir faults p w = Raises FileNotFoundError (w\<lparr>calls := calls w + 1\<rparr>)"
  using assms by (simp add: Path_mkdir_def os_mkdir_def)

lemma Path_mkdir_Raises:
  assumes "Path_mkdir faults p w = Raises e w1"
  shows "w1 = w\<lparr>calls := calls w + 1\<rparr>"
  using assms
  by (auto simp: Path_mkdir_def os_mkdir_def Let_def
      split: option.splits node.splits error.splits if_splits prod.splits)

lemma Path_mkdir_same:
  assumes "faults (calls w) = None" and "Path_mkdir no_faults p w = r"
  shows "Path_mkdir faults p w = r"
  using assms by (simp add: Path_mkdir_def os_mkdir_def no_faults_def)

lemma open_w_same:
  assumes "faults (calls w) = None" and "open_w no_faults p w = r"
  shows "open_w faults p w = r"
  using assms by (simp add: open_w_def no_faults_def)

lemma write_close_same:
  assumes "faults (calls w) = None" and "write_close no_faults f s w = r"
  shows "write_close faults f s w = r"
  using assms
  by (auto simp: write_close_def no_faults_def Let_def split: option.splits node.splits)

lemma Path_mkdir_fault:
  assumes "faults (calls w) = Some (e, k)" and "files w p = None"
  shows "Path_mkdir faults p w = Raises e (w\<lparr>calls := calls w + 1\<rparr>)"
  using assms by (cases e) (simp_all add: Path_mkdir_def os_mkdir_def)

lemma open_w_fault:
  assumes "faults (calls w) = Some (e, k)"
  shows "open_w faults p w = Raises e (w\<lparr>calls := calls w + 1\<rparr>)"
  using assms by (simp add: open_w_def)

lemma write_close_fault:
  assumes "faults (calls w) = Some (e, k)" and "files w f = Some (File c)"
  shows "write_close faults f s w
    = Raises e (w\<lparr>calls := calls w + 1, files := (files w)(f \<mapsto> File (c @ take k s))\<rparr>)"
  using assms by (simp add: write_close_def)

lemma generate_password_steps:
  assumes "generate_password g rnd faults len w = Returns u w'"
    and "PROJECT_ROOT g = Some root"
  shows "\<exists>w1 a w2 b w3 w4 w5 w6 w7 w8 w9.
    Path_mkdir faults (root @ [''.docker'']) w = Returns () w1
    \<and> local_generate_password g rnd len w1 = Returns a w2
    \<and> local_generate_password g rnd len w2 = Returns b w3
    \<and> open_w faults (root @ [''.docker'', ''odoo.env'']) w3
        = Returns (root @ [''.docker'', ''odoo.env'']) w4
    \<and> write_close faults (root @ [''.docker'', ''odoo.env''])
          (''ADMIN_PASSWORD='' @ a @ [CHR 0x0A]) w4 = Returns () w5
    \<and> open_w faults (root @ [''.docker'', ''db-creation.env'']) w5
        = Returns (root @ [''.docker'', ''db-creation.env'']) w6
    \<and> write_close faults (root @ [''.docker'', ''db-creation.env''])
          (''POSTGRES_PASSWORD='' @ b @ [CHR 0x0A]) w6 = Returns () w7
    \<and> open_w faults (root @ [''.docker'', ''db-access.env'']) w7
        = Returns (root @ [''.docker'', ''db-access.env'']) w8
    \<and> write_close faults (root @ [''.docker'', ''db-access.env''])
          (''PGPASSWORD='' @ b @ [CHR 0x0A]) w8 = Returns () w9
    \<and> w' = w9\<lparr>records := records w9 @ [''Passwords and env files generated in .docker/'',
          ''Generated passwords with length: '' @ str_int len]\<rparr>"
  using assms
  unfolding generate_password_def Let_def
  by (simp only: option.case and_then_Returns)
    (clarsimp simp: logger_info_def split: if_splits, auto simp: open_w_Returns)


lemma failure_propagates_without_rollback:
  assumes ok: "generate_password g rnd no_faults len w = Returns u w'"
    and root: "PROJECT_ROOT g = Some root"
    and n: "n < 7"
    and before: "\<forall>i<n. faults (calls w + i) = None"
    and fault: "faults (calls w + n) = Some (e, k)"
    and missing: "n = 0 \<longrightarrow> files w (root @ [''.docker'']) = None"
  shows "\<exists>w''. generate_password g rnd faults len w = Raises e w''
    \<and> calls w'' = calls w + n + 1
    \<and> records w'' = records w
    \<and> (2 < n \<longrightarrow> files w'' (root @ [''.docker'', ''odoo.env'']) = files w' (root @ [''.docker'', ''odoo.env'']))
    \<and> (4 < n \<longrightarrow> files w'' (root @ [''.docker'', ''db-creation.env'']) = files w' (root @ [''.docker'', ''db-creation.env'']))
    \<and> (\<forall>p. p \<notin> {root @ [''.docker''], root @ [''.docker'', ''odoo.env''], root @ [''.docker'', ''db-creation.env''], root @ [''.docker'', ''db-access.env'']} \<longrightarrow> files w'' p = files w p)"
proof -
  from generate_password_steps [OF ok root] obtain w1 a w2 b w3 w4 w5 w6 w7 w8 w9 where
    m: "Path_mkdir no_faults (root @ [''.docker'']) w = Returns () w1"
    and g1: "local_generate_password g rnd len w1 = Returns a w2"
    and g2: "local_generate_password g rnd len w2 = Returns b w3"
    and o1: "open_w no_faults (root @ [''.docker'', ''odoo.env'']) w3 = Returns (root @ [''.docker'', ''odoo.env'']) w4"
    and c1: "write_close no_faults (root @ [''.docker'', ''odoo.env'']) (''ADMIN_PASSWORD='' @ a @ [CHR 0x0A]) w4 = Returns () w5"
    and o2: "open_w no_faults (root @ [''.docker'', ''db-creation.env'']) w5 = Returns (root @ [''.docker'', ''db-creation.env'']) w6"
    and c2: "write_close no_faults (root @ [''.docker'', ''db-creation.env'']) (''POSTGRES_PASSWORD='' @ b @ [CHR 0x0A]) w6 = Returns () w7"
    and o3: "open_w no_faults (root @ [''.docker'', ''db-access.env'']) w7 = Returns (root @ [''.docker'', ''db-access.env'']) w8"
    and c3: "write_close no_faults (root @ [''.docker'', ''db-access.env'']) (''PGPASSWORD='' @ b @ [CHR 0x0A]) w8 = Returns () w9"
    and w': "w' = w9\<lparr>records := records w9 @ [''Passwords and env files generated in .docker/'',
          ''Generated passwords with length: '' @ str_int len]\<rparr>"
    by blast
  from Path_mkdir_Returns [OF m]
  have e1: "w1 = w\<lparr>calls := calls w + 1, files := (files w)(root @ [''.docker''] \<mapsto> Dir)\<rparr>"
    by simp
  from g1 obtain d1 where e2: "w2 = w1\<lparr>drawn := d1\<rparr>"
    by (auto simp: local_generate_password_Returns)
  from g2 obtain d2 where e3: "w3 = w2\<lparr>drawn := d2\<rparr>"
    by (auto simp: local_generate_password_Returns)
  from o1 have e4: "w4 = w3\<lparr>calls := calls w3 + 1, files := (files w3)(root @ [''.docker'', ''odoo.env''] \<mapsto> File [])\<rparr>"
    by (simp add: open_w_Returns)
  from c1 e4 have e5: "w5 = w4\<lparr>calls := calls w4 + 1,
      files := (files w4)(root @ [''.docker'', ''odoo.env''] \<mapsto> File (''ADMIN_PASSWORD='' @ a @ [CHR 0x0A]))\<rparr>"
    by (simp add: write_close_Returns)
  from o2 have e6: "w6 = w5\<lparr>calls := calls w5 + 1, files := (files w5)(root @ [''.docker'', ''db-creation.env''] \<mapsto> File [])\<rparr>"
    by (simp add: open_w_Returns)
  from c2 e6 have e7: "w7 = w6\<lparr>calls := calls w6 + 1,
      files := (files w6)(root @ [''.docker'', ''db-creation.env''] \<mapsto> File (''POSTGRES_PASSWORD='' @ b @ [CHR 0x0A]))\<rparr>"
    by (simp add: write_close_Returns)
  from o3 have e8: "w8 = w7\<lparr>calls := calls w7 + 1, files := (files w7)(root @ [''.docker'', ''db-access.env''] \<mapsto> File [])\<rparr>"
    by (simp add: open_w_Returns)
  from c3 e8 have e9: "w9 = w8\<lparr>calls := calls w8 + 1,
      files := (files w8)(root @ [''.docker'', ''db-access.env''] \<mapsto> File (''PGPASSWORD='' @ b @ [CHR 0x0A]))\<rparr>"
    by (simp add: write_close_Returns)
  have k3: "calls w3 = calls w + 1" by (simp add: e1 e2 e3)
  have k4: "calls w4 = calls w + 2" by (simp add: e4 k3)
  have k5: "calls w5 = calls w + 3" by (simp add: e5 k4)
  have k6: "calls w6 = calls w + 4" by (simp add: e6 k5)
  have k7: "calls w7 = calls w + 5" by (simp add: e7 k6)
  have k8: "calls w8 = calls w + 6" by (simp add: e8 k7)
  have s0: "Path_mkdir faults (root @ [''.docker'']) w = Returns () w1" if "0 < n"
    using before that m by (rule_tac Path_mkdir_same) auto
  have s1: "open_w faults (root @ [''.docker'', ''odoo.env'']) w3 = Returns (root @ [''.docker'', ''odoo.env'']) w4" if "1 < n"
    using before that o1 by (rule_tac open_w_same) (auto simp: k3)
  have s2: "write_close faults (root @ [''.docker'', ''odoo.env'']) (''ADMIN_PASSWORD='' @ a @ [CHR 0x0A]) w4 = Returns () w5"
    if "2 < n"
    using before that c1 by (rule_tac write_close_same) (auto simp: k4)
  have s3: "open_w faults (root @ [''.docker'', ''db-creation.env'']) w5 = Returns (root @ [''.docker'', ''db-creation.env'']) w6" if "3 < n"
    using before that o2 by (rule_tac open_w_same) (auto simp: k5)
  have s4: "write_close faults (root @ [''.docker'', ''db-creation.env'']) (''POSTGRES_PASSWORD='' @ b @ [CHR 0x0A]) w6 = Returns () w7"
    if "4 < n"
    using before that c2 by (rule_tac write_close_same) (auto simp: k6)
  have s5: "open_w faults (root @ [''.docker'', ''db-access.env'']) w7 = Returns (root @ [''.docker'', ''db-access.env'']) w8" if "5 < n"
    using before that o3 by (rule_tac open_w_same) (auto simp: k7)
  from n consider "n = 0" | "n = 1" | "n = 2" | "n = 3" | "n = 4" | "n = 5" | "n = 6"
    by linarith
  then show ?thesis
  proof cases
    case 1
    with fault missing
    have "Path_mkdir faults (root @ [''.docker'']) w = Raises e (w\<lparr>calls := calls w + 1\<rparr>)"
      by (intro Path_mkdir_fault) simp_all
    then have "generate_password g rnd faults len w = Raises e (w\<lparr>calls := calls w + 1\<rparr>)"
      by (simp add: generate_password_def and_then_simps root)
    with 1 show ?thesis by simp
  next
    case 2
    with fault have "open_w faults (root @ [''.docker'', ''odoo.env'']) w3 = Raises e (w3\<lparr>calls := calls w3 + 1\<rparr>)"
      by (intro open_w_fault) (simp add: k3)
    with 2 s0 s1 s2 s3 s4 s5 g1 g2
    have "generate_password g rnd faults len w = Raises e (w3\<lparr>calls := calls w3 + 1\<rparr>)"
      by (simp add: generate_password_def and_then_simps root)
    with 2 show ?thesis by (simp add: e1 e2 e3)
  next
    case 3
    have opened: "files w4 (root @ [''.docker'', ''odoo.env'']) = Some (File [])"
      by (simp add: e4)
    from 3 fault have flt: "faults (calls w4) = Some (e, k)"
      by (simp add: k4)
    have "write_close faults (root @ [''.docker'', ''odoo.env'']) (''ADMIN_PASSWORD='' @ a @ [CHR 0x0A]) w4
        = Raises e (w4\<lparr>calls := calls w4 + 1,
            files := (files w4)(root @ [''.docker'', ''odoo.env''] \<mapsto> File ([] @ take k (''ADMIN_PASSWORD='' @ a @ [CHR 0x0A])))\<rparr>)"
      by (rule write_close_fault [where faults = faults and w = w4, OF flt opened])
    with 3 s0 s1 s2 s3 s4 s5 g1 g2
    have "generate_password g rnd faults len w = Raises e (w4\<lparr>calls := calls w4 + 1,
            files := (files w4)(root @ [''.docker'', ''odoo.env''] \<mapsto> File ([] @ take k (''ADMIN_PASSWORD='' @ a @ [CHR 0x0A])))\<rparr>)"
      by (simp add: generate_password_def and_then_simps root)
    with 3 show ?thesis by (simp add: e1 e2 e3 e4)
  next
    case 4
    with fault have "open_w faults (root @ [''.docker'', ''db-creation.env'']) w5 = Raises e (w5\<lparr>calls := calls w5 + 1\<rparr>)"
      by (intro open_w_fault) (simp add: k5)
    with 4 s0 s1 s2 s3 s4 s5 g1 g2
    have "generate_password g rnd faults len w = Raises e (w5\<lparr>calls := calls w5 + 1\<rparr>)"
      by (simp add: generate_password_def and_then_simps root)
    with 4 show ?thesis by (simp add: w' e1 e2 e3 e4 e5 e6 e7 e8 e9)
  next
    case 5
    have opened: "files w6 (root @ [''.docker'', ''db-creation.env'']) = Some (File [])"
      by (simp add: e6)
    from 5 fault have flt: "faults (calls w6) = Some (e, k)"
      by (simp add: k6)
    have "write_close faults (root @ [''.docker'', ''db-creation.env'']) (''POSTGRES_PASSWORD='' @ b @ [CHR 0x0A]) w6
        = Raises e (w6\<lparr>calls := calls w6 + 1,
            files := (files w6)(root @ [''.docker'', ''db-creation.env''] \<mapsto> File ([] @ take k (''POSTGRES_PASSWORD='' @ b @ [CHR 0x0A])))\<rparr>)"
      by (rule write_close_fault [where faults = faults and w = w6, OF flt opened])
    with 5 s0 s1 s2 s3 s4 s5 g1 g2
    have "generate_password g rnd faults len w = Raises e (w6\<lparr>calls := calls w6 + 1,
            files := (files w6)(root @ [''.docker'', ''db-creation.env''] \<mapsto> File ([] @ take k (''POSTGRES_PASSWORD='' @ b @ [CHR 0x0A])))\<rparr>)"
      by (simp add: generate_password_def and_then_simps root)
    with 5 show ?thesis by (simp add: w' e1 e2 e3 e4 e5 e6 e7 e8 e9)
  next
    case 6
    with fault have "open_w faults (root @ [''.docker'', ''db-access.env'']) w7 = Raises e (w7\<lparr>calls := calls w7 + 1\<rparr>)"
      by (intro open_w_fault) (simp add: k7)
    with 6 s0 s1 s2 s3 s4 s5 g1 g2
    have "generate_password g rnd faults len w = Raises e (w7\<lparr>calls := calls w7 + 1\<rparr>)"
      by (simp add: generate_password_def and_then_simps root)
    with 6 show ?thesis by (simp add: w' e1 e2 e3 e4 e5 e6 e7 e8 e9)
  next
    case 7
    have opened: "files w8 (root @ [''.docker'', ''db-access.env'']) = Some (File [])"
      by (simp add: e8)
    from 7 fault have flt: "faults (calls w8) = Some (e, k)"
      by (simp add: k8)
    have "write_close faults (root @ [''.docker'', ''db-access.env'']) (''PGPASSWORD='' @ b @ [CHR 0x0A]) w8
        = Raises e (w8\<lparr>calls := calls w8 + 1,
            files := (files w8)(root @ [''.docker'', ''db-access.env''] \<mapsto> File ([] @ take k (''PGPASSWORD='' @ b @ [CHR 0x0A])))\<rparr>)"
      by (rule write_close_fault [where faults = faults and w = w8, OF flt opened])
    with 7 s0 s1 s2 s3 s4 s5 g1 g2
    have "generate_password g rnd faults len w = Raises e (w8\<lparr>calls := calls w8 + 1,
            files := (files w8)(root @ [''.docker'', ''db-access.env''] \<mapsto> File ([] @ take k (''PGPASSWORD='' @ b @ [CHR 0x0A])))\<rparr>)"
      by (simp add: generate_password_def and_then_simps root)
    with 7 show ?thesis by (simp add: w' e1 e2 e3 e4 e5 e6 e7 e8 e9)
  qed
qed

subsection \<open>What the code does by design\<close>

lemma short_length_loops:
  assumes "string_bound g" and "secrets_bound g" and "len < 4"
  shows "local_generate_password g rnd len w = Diverges"
  using assms by (simp add: local_generate_password_short)

lemma missing_parent_raises:
  assumes "PROJECT_ROOT g = Some root" and "files w root = None" and "faults (calls w) = None"
  shows "generate_password g rnd faults len w
    = Raises FileNotFoundError (w\<lparr>calls := calls w + 1\<rparr>)"
proof -
  have "Path_mkdir faults (root @ [''.docker'']) w
      = Raises FileNotFoundError (w\<lparr>calls := calls w + 1\<rparr>)"
    using assms(2,3) by (intro Path_mkdir_no_parent) simp_all
  with assms(1) show ?thesis
    by (simp add: generate_password_def and_then_simps)
qed

section \<open>The claims\<close>


text \<open>
  C2, amended. For every length in 0, 1, 2, 3 and whatever names are bound,
  \<^verbatim>\<open>_generate_password\<close> returns no password and raises no error that comes from a check
  of the length: it never ends, or the lookup of a name fails. The code has no such
  check.
\<close>

theorem short_length_not_validated:
  assumes "0 \<le> len" and "len < 4"
  shows "local_generate_password g rnd len w = Diverges
    \<or> (\<exists>n. local_generate_password g rnd len w = Raises (NameError n) w)"
  using assms(2) by (simp add: local_generate_password_short)

text \<open>
  At the length 3, with the bindings of \<^verbatim>\<open>tasks.py\<close> and a stream that gives a lowercase
  letter, an uppercase letter and a digit.
\<close>

theorem short_length_not_validated_witness:
  "(0::int) \<le> 3 \<and> (3::int) < 4
   \<and> (local_generate_password module_globals (cycle [0, 26, 52]) 3 start_world = Diverges
      \<or> (\<exists>n. local_generate_password module_globals (cycle [0, 26, 52]) 3 start_world
            = Raises (NameError n) start_world))"
  using short_length_not_validated [of 3 module_globals "cycle [0, 26, 52]" start_world]
  by simp

text \<open>
  The claim as the specification words it fails at the length 3: the error raised is the
  NameError for \<^verbatim>\<open>string\<close>, the same that the length 64 gets, and not an error about the
  length.
\<close>

theorem length_three_no_validation_error:
  "local_generate_password module_globals (cycle [0, 26, 52]) 3 start_world
     = Raises (NameError ''string'') start_world
   \<and> local_generate_password module_globals (cycle [0, 26, 52]) 64 start_world
     = Raises (NameError ''string'') start_world"
  by (simp add: local_generate_password_unbound module_globals_simps)






text \<open>
  C6. The claim is that \<^verbatim>\<open>_generate_password\<close> draws candidates and rejects them whole.
  With the bindings of \<^verbatim>\<open>tasks.py\<close>, at the length 4 on a stream whose first four draws
  would be rejected, the helper raises NameError for \<^verbatim>\<open>string\<close> before the loop: no draw
  is taken, no candidate is built.
\<close>

theorem no_candidate_drawn:
  "local_generate_password module_globals draws_retry 4 start_world
     = Raises (NameError ''string'') start_world
   \<and> ends_in (\<lambda>w'. drawn w' = 0)
      (local_generate_password module_globals draws_retry 4 start_world)"
  by (simp add: local_generate_password_unbound module_globals_simps ends_in_def start_world_def)

text \<open>
  C7. The claim is that files of the three names are replaced. In a project that holds an
  older \<^verbatim>\<open>odoo.env\<close>, with the bindings of \<^verbatim>\<open>tasks.py\<close>, the run ends in the NameError
  for \<^verbatim>\<open>PROJECT_ROOT\<close> and the older file is there afterwards with its older contents.
\<close>

theorem old_file_not_replaced:
  "generate_password module_globals draws_one no_faults 64 old_world
     = Raises (NameError ''PROJECT_ROOT'') old_world
   \<and> ends_in (\<lambda>w'. files w' [''project'', ''.docker'', ''odoo.env'']
        = Some (File (''ADMIN_PASSWORD=old'' @ [CHR 0x0A] @ ''EXTRA=1'')))
      (generate_password module_globals draws_one no_faults 64 old_world)"
  by (simp add: generate_password_unbound module_globals_simps ends_in_def old_world_def)





end
